theory Spec2Isabelle
  imports Complex_Main "HOL-Library.Word"
begin

section \<open>JavaScript numbers\<close>

text \<open>
  The capture engine computes on JavaScript numbers. A number is modelled as an exact
  real, one of the two infinities, or NaN. Finite arithmetic is exact in the model: the
  rounding of IEEE doubles (and of the \<open>Float32Array\<close> store) is not modelled; the
  special values follow IEEE 754 as JavaScript does. \<open>undefined\<close>, which only arises
  from an out-of-range typed-array read and is then only used in arithmetic and in
  \<open><\<close>, behaves there as NaN and is modelled by it.
\<close>

datatype jsnum = Fin real | PosInf | NegInf | NaN

fun js_lt :: "jsnum \<Rightarrow> jsnum \<Rightarrow> bool" where
  "js_lt NaN _ = False"
| "js_lt _ NaN = False"
| "js_lt (Fin a) (Fin b) = (a < b)"
| "js_lt _ NegInf = False"
| "js_lt NegInf _ = True"
| "js_lt PosInf _ = False"
| "js_lt _ PosInf = True"

definition Math_min :: "jsnum \<Rightarrow> jsnum \<Rightarrow> jsnum" where
  "Math_min a b = (if a = NaN \<or> b = NaN then NaN else if js_lt b a then b else a)"

definition Math_max :: "jsnum \<Rightarrow> jsnum \<Rightarrow> jsnum" where
  "Math_max a b = (if a = NaN \<or> b = NaN then NaN else if js_lt a b then b else a)"

fun js_neg :: "jsnum \<Rightarrow> jsnum" where
  "js_neg (Fin a) = Fin (- a)"
| "js_neg PosInf = NegInf"
| "js_neg NegInf = PosInf"
| "js_neg NaN = NaN"

fun js_add :: "jsnum \<Rightarrow> jsnum \<Rightarrow> jsnum" where
  "js_add NaN _ = NaN"
| "js_add _ NaN = NaN"
| "js_add (Fin a) (Fin b) = Fin (a + b)"
| "js_add PosInf NegInf = NaN"
| "js_add NegInf PosInf = NaN"
| "js_add PosInf _ = PosInf"
| "js_add NegInf _ = NegInf"
| "js_add _ PosInf = PosInf"
| "js_add _ NegInf = NegInf"

definition js_sub :: "jsnum \<Rightarrow> jsnum \<Rightarrow> jsnum" where
  "js_sub a b = js_add a (js_neg b)"

text \<open>The sign of a number that is not NaN: \<open>-1\<close>, \<open>0\<close> or \<open>1\<close>.\<close>

fun js_sign :: "jsnum \<Rightarrow> real" where
  "js_sign (Fin a) = sgn a"
| "js_sign PosInf = 1"
| "js_sign NegInf = - 1"
| "js_sign NaN = 0"

fun js_mul :: "jsnum \<Rightarrow> jsnum \<Rightarrow> jsnum" where
  "js_mul NaN _ = NaN"
| "js_mul _ NaN = NaN"
| "js_mul (Fin a) (Fin b) = Fin (a * b)"
| "js_mul a b =
     (if js_sign a * js_sign b = 0 then NaN
      else if 0 < js_sign a * js_sign b then PosInf else NegInf)"

fun js_div :: "jsnum \<Rightarrow> jsnum \<Rightarrow> jsnum" where
  "js_div NaN _ = NaN"
| "js_div _ NaN = NaN"
| "js_div (Fin a) (Fin b) =
     (if b \<noteq> 0 then Fin (a / b)
      else if a = 0 then NaN else if 0 < a then PosInf else NegInf)"
| "js_div (Fin a) _ = Fin 0"
| "js_div a (Fin b) = (if 0 \<le> js_sign a * b then a else js_neg a)"
| "js_div _ _ = NaN"

fun Math_sqrt :: "jsnum \<Rightarrow> jsnum" where
  "Math_sqrt (Fin a) = (if a < 0 then NaN else Fin (sqrt a))"
| "Math_sqrt PosInf = PosInf"
| "Math_sqrt _ = NaN"

text \<open>Rounding towards zero, the first step of the \<open>ToInt16\<close> conversion.\<close>

definition js_trunc :: "real \<Rightarrow> int" where
  "js_trunc x = (if x < 0 then \<lceil>x\<rceil> else \<lfloor>x\<rfloor>)"

text \<open>
  \<open>ToInt16\<close>, applied by every store into an \<open>Int16Array\<close>: NaN and the infinities
  become 0, a finite number is truncated and reduced modulo \<open>2 ^ 16\<close>.
\<close>

fun ToInt16 :: "jsnum \<Rightarrow> 16 word" where
  "ToInt16 (Fin a) = word_of_int (js_trunc a)"
| "ToInt16 _ = 0"

text \<open>A typed-array read; out of range it yields \<open>undefined\<close>.\<close>

definition js_index :: "jsnum list \<Rightarrow> int \<Rightarrow> jsnum" where
  "js_index xs i = (if 0 \<le> i \<and> i < int (length xs) then xs ! nat i else NaN)"

section \<open>The capture engine: \<open>PCMProcessor\<close>\<close>

datatype ProcessorState = Initialized | Running | Stopped | Faulted

text \<open>The messages the processor posts to the main thread.\<close>

datatype PortMessage =
    AudioMsg "16 word list"
  | LevelMsg jsnum
  | ErrorMsg string
  | StateMsg ProcessorState

text \<open>
  The fields of the class. \<open>port\<close> is the sequence of messages posted so far, oldest
  first. \<open>postMessage\<close> of a freshly built, cloneable message does not throw, so the
  \<open>catch\<close> branches around it (and \<open>reportError\<close>, which only they call) are
  unreachable and are left out.
\<close>

record PCMProcessor =
  bufferSize :: nat
  targetSampleRate :: real
  buffer :: "jsnum list"
  bytesWritten :: nat
  state :: ProcessorState
  isRunning :: bool
  inputSampleRate :: real
  resampleRatio :: real
  resamplePosition :: real
  levelUpdateInterval :: nat
  levelSampleCount :: nat
  levelSum :: jsnum
  port :: "PortMessage list"

definition postMessage :: "PortMessage \<Rightarrow> PCMProcessor \<Rightarrow> PCMProcessor" where
  "postMessage m p = p\<lparr>port := port p @ [m]\<rparr>"

definition notifyState :: "ProcessorState \<Rightarrow> PCMProcessor \<Rightarrow> PCMProcessor" where
  "notifyState newState p = postMessage (StateMsg newState) (p\<lparr>state := newState\<rparr>)"

definition sendAudioLevel :: "jsnum \<Rightarrow> PCMProcessor \<Rightarrow> PCMProcessor" where
  "sendAudioLevel level p = postMessage (LevelMsg level) p"

text \<open>
  The constructor. \<open>sampleRate\<close> is the global of the worklet scope; an option that is
  absent or falsy (\<open>0\<close>) takes its default.
\<close>

definition constructor :: "real \<Rightarrow> nat option \<Rightarrow> real option \<Rightarrow> PCMProcessor" where
  "constructor sampleRate optBufferSize optTargetSampleRate =
     (let bs = (case optBufferSize of None \<Rightarrow> 4096 | Some b \<Rightarrow> if b = 0 then 4096 else b);
          tr = (case optTargetSampleRate of None \<Rightarrow> 16000
                | Some t \<Rightarrow> if t = 0 then 16000 else t)
      in notifyState Running
           \<lparr> bufferSize = bs, targetSampleRate = tr,
             buffer = replicate bs (Fin 0), bytesWritten = 0,
             state = Initialized, isRunning = True,
             inputSampleRate = sampleRate, resampleRatio = sampleRate / tr,
             resamplePosition = 0,
             levelUpdateInterval = 512, levelSampleCount = 0, levelSum = Fin 0,
             port = [] \<rparr>)"

text \<open>The clamp of \<open>addSample\<close> and the scaling of \<open>flush\<close>, as the source writes them.\<close>

definition clampSample :: "jsnum \<Rightarrow> jsnum" where
  "clampSample sample = Math_max (Fin (- 1)) (Math_min (Fin 1) sample)"

definition scaleSample :: "jsnum \<Rightarrow> jsnum" where
  "scaleSample s = (if js_lt s (Fin 0) then js_mul s (Fin 32768) else js_mul s (Fin 32767))"

definition flush :: "PCMProcessor \<Rightarrow> PCMProcessor" where
  "flush p =
     (if bytesWritten p = 0 then p
      else
        let int16Data =
              map (\<lambda>i. ToInt16 (scaleSample (js_index (buffer p) (int i))))
                [0 ..< bytesWritten p]
        in (postMessage (AudioMsg int16Data) p)\<lparr>bytesWritten := 0\<rparr>)"

definition addSample :: "jsnum \<Rightarrow> PCMProcessor \<Rightarrow> PCMProcessor" where
  "addSample sample p =
     (let clampedSample = clampSample sample;
          p1 = p\<lparr>buffer := (buffer p)[bytesWritten p := clampedSample],
                 bytesWritten := bytesWritten p + 1\<rparr>;
          p2 = p1\<lparr>levelSum := js_add (levelSum p1) (js_mul clampedSample clampedSample),
                  levelSampleCount := levelSampleCount p1 + 1\<rparr>;
          p3 = (if levelUpdateInterval p2 \<le> levelSampleCount p2
                then (sendAudioLevel
                        (Math_sqrt (js_div (levelSum p2) (Fin (real (levelSampleCount p2)))))
                        p2)\<lparr>levelSum := Fin 0, levelSampleCount := 0\<rparr>
                else p2)
      in if bufferSize p3 \<le> bytesWritten p3 then flush p3 else p3)"

definition stop :: "PCMProcessor \<Rightarrow> PCMProcessor" where
  "stop p =
     notifyState Stopped ((if 0 < bytesWritten p then flush p else p)\<lparr>isRunning := False\<rparr>)"

text \<open>The control messages of the main thread, as \<open>handleMessage\<close> destructures them.\<close>

datatype ControlMessage = StopMsg | ConfigMsg "nat option" "real option" | UnknownMsg

fun handleMessage :: "ControlMessage \<Rightarrow> PCMProcessor \<Rightarrow> PCMProcessor" where
  "handleMessage StopMsg p = stop p"
| "handleMessage (ConfigMsg optBufferSize optTargetSampleRate) p =
     (let p1 = (case optBufferSize of
                  Some b \<Rightarrow>
                    if 0 < b
                    then p\<lparr>bufferSize := b, buffer := replicate b (Fin 0), bytesWritten := 0\<rparr>
                    else p
                | None \<Rightarrow> p)
      in (case optTargetSampleRate of
            Some t \<Rightarrow>
              if t \<noteq> 0 \<and> 0 < t
              then p1\<lparr>targetSampleRate := t, resampleRatio := inputSampleRate p1 / t\<rparr>
              else p1
          | None \<Rightarrow> p1))"
| "handleMessage UnknownMsg p = p"

text \<open>
  The interpolation loop of \<open>processWithDownsampling\<close>. It runs forever when the ratio
  is not positive, so it is a partial function: \<open>None\<close> is a loop that never returns.
\<close>

partial_function (option) resampleLoop :: "jsnum list \<Rightarrow> PCMProcessor \<Rightarrow> PCMProcessor option"
where
  "resampleLoop inputData p =
     (if resamplePosition p < real (length inputData) then
        (let intPos = \<lfloor>resamplePosition p\<rfloor>;
             fracPos = resamplePosition p - real_of_int intPos;
             sample1 = js_index inputData intPos;
             sample2 = (if intPos + 1 < int (length inputData)
                        then js_index inputData (intPos + 1) else sample1);
             interpolatedSample = js_add sample1 (js_mul (js_sub sample2 sample1) (Fin fracPos));
             p1 = addSample interpolatedSample p
         in resampleLoop inputData
              (p1\<lparr>resamplePosition := resamplePosition p1 + resampleRatio p1\<rparr>))
      else Some p)"

definition processWithDownsampling :: "jsnum list \<Rightarrow> PCMProcessor \<Rightarrow> PCMProcessor option" where
  "processWithDownsampling inputData p =
     (if \<bar>resampleRatio p - 1\<bar> < 0.001 then
        Some (fold addSample inputData p)
      else
        map_option
          (\<lambda>q. q\<lparr>resamplePosition := resamplePosition q - real (length inputData)\<rparr>)
          (resampleLoop inputData p))"

text \<open>
  \<open>process\<close>: \<open>inputs\<close> is the list of inputs, each a list of channels. The result is
  the flag returned to the audio graph and the new processor.
\<close>

definition process :: "jsnum list list list \<Rightarrow> PCMProcessor \<Rightarrow> (bool \<times> PCMProcessor) option" where
  "process inputs p =
     (if \<not> isRunning p then Some (False, p)
      else case inputs of
        [] \<Rightarrow> Some (True, p)
      | input # _ \<Rightarrow>
          (case input of
             [] \<Rightarrow> Some (True, p)
           | channelData # _ \<Rightarrow>
               if channelData = [] then Some (True, p)
               else map_option (\<lambda>q. (True, q)) (processWithDownsampling channelData p)))"


text \<open>
  The number of samples the processor has appended so far: those already emitted in
  audio chunks and those waiting in the accumulator.
\<close>

fun chunkLength :: "PortMessage \<Rightarrow> nat" where
  "chunkLength (AudioMsg b) = length b"
| "chunkLength _ = 0"

definition samplesOut :: "PCMProcessor \<Rightarrow> nat" where
  "samplesOut p = sum_list (map chunkLength (port p)) + bytesWritten p"

section \<open>The transport client: \<open>useTranscription\<close>\<close>

text \<open>
  The hook is modelled as a record of its React state, its refs and what it reads from
  \<open>useWebSocket\<close>, and each callback as a function on that record. A \<open>setState\<close> with
  an updater is applied at once, in call order. A string is the list of its characters,
  taken from the code units below 256. The model covers the heartbeat bookkeeping, the
  opening of the socket, the audio queue and the handling of incoming messages; the
  JSON control messages the hook sends (\<open>config\<close>, \<open>start_session\<close>, \<open>flush\<close>,
  \<open>ping\<close>) and its timers are outside it.
\<close>

datatype ReadyState = UNINSTANTIATED | CONNECTING | OPEN | CLOSING | CLOSED

datatype ConnectionHealth = Healthy | Degraded | Unhealthy

datatype ModerationLabel = CLEAN | OFFENSIVE | HATE

record ModerationResult =
  request_id :: "string option"
  label :: ModerationLabel
  label_id :: nat
  confidence :: real
  is_flagged :: bool
  latency_ms :: real
  detected_keywords :: "string list"

record TranscriptionState =
  interimText :: string
  finalizedSegments :: "string list"
  fullTranscript :: string
  sessionId :: "string option"
  connectionState :: ReadyState
  error :: "string option"
  bytesSent :: nat
  queuedChunks :: nat
  lastPingLatency :: "int option"
  connectionHealth :: ConnectionHealth
  latestModeration :: "ModerationResult option"
  moderationResults :: "ModerationResult list"

text \<open>
  The options of the hook that the modelled callbacks read, with their defaults. The
  capacity of the queue is a count of chunks, a natural number.
\<close>

record UseTranscriptionOptions =
  maxQueueSize :: nat
  enableQueue :: bool

definition DEFAULT_MAX_QUEUE_SIZE :: nat where
  "DEFAULT_MAX_QUEUE_SIZE = 50"

definition UNHEALTHY_THRESHOLD :: nat where
  "UNHEALTHY_THRESHOLD = 3"

definition defaultOptions :: UseTranscriptionOptions where
  "defaultOptions = \<lparr> maxQueueSize = DEFAULT_MAX_QUEUE_SIZE, enableQueue = True \<rparr>"

text \<open>
  An audio chunk is an \<open>ArrayBuffer\<close>: a sequence of bytes, whose \<open>byteLength\<close> is its
  length. The socket records the binary frames it has accepted, oldest first.
  \<open>throws\<close> scripts the coming calls of \<open>send\<close>: each call consumes the head, and
  throws when it is \<open>True\<close>; when the script is used up every call succeeds. A call
  that throws delivers nothing.
\<close>

type_synonym ArrayBuffer = "8 word list"

record WebSocket =
  ws_readyState :: ReadyState
  wire :: "ArrayBuffer list"
  throws :: "bool list"

definition ws_send :: "ArrayBuffer \<Rightarrow> WebSocket \<Rightarrow> bool \<times> WebSocket" where
  "ws_send chunk ws =
     (if throws ws \<noteq> [] \<and> hd (throws ws)
      then (False, ws\<lparr>throws := tl (throws ws)\<rparr>)
      else (True, ws\<lparr>wire := wire ws @ [chunk], throws := tl (throws ws)\<rparr>))"

text \<open>The application callbacks, recorded in the order they are invoked.\<close>

datatype Callback =
    OnTranscription string bool
  | OnModeration ModerationResult
  | OnConnectionChange ReadyState
  | OnError string
  | OnHealthChange ConnectionHealth

text \<open>
  \<open>tstate\<close> is the React state of the hook (\<open>state\<close> in the source); \<open>readyState\<close> is
  the value of \<open>useWebSocket\<close> that the callbacks of the current render close over;
  \<open>webSocket\<close> is what \<open>getWebSocket()\<close> returns. A timer ref is \<open>True\<close> when it
  holds a timer.
\<close>

record Hook =
  tstate :: TranscriptionState
  readyState :: ReadyState
  webSocket :: "WebSocket option"
  configSentRef :: bool
  pingTimeoutRef :: bool
  missedPingsRef :: nat
  audioQueueRef :: "ArrayBuffer list"
  isProcessingQueueRef :: bool
  bytesSentRef :: nat
  callbacks :: "Callback list"

definition initialState :: TranscriptionState where
  "initialState =
     \<lparr> interimText = [], finalizedSegments = [], fullTranscript = [],
       sessionId = None, connectionState = CLOSED, error = None,
       bytesSent = 0, queuedChunks = 0, lastPingLatency = None,
       connectionHealth = Healthy, latestModeration = None, moderationResults = [] \<rparr>"

text \<open>The hook at its first render, before \<open>connect\<close>: no URL, so no socket.\<close>

definition initialHook :: Hook where
  "initialHook =
     \<lparr> tstate = initialState, readyState = UNINSTANTIATED, webSocket = None,
       configSentRef = False, pingTimeoutRef = False, missedPingsRef = 0,
       audioQueueRef = [], isProcessingQueueRef = False, bytesSentRef = 0,
       callbacks = [] \<rparr>"

subsection \<open>Heartbeat\<close>

definition healthOf :: "nat \<Rightarrow> ConnectionHealth" where
  "healthOf missed =
     (if missed = 0 then Healthy
      else if missed < UNHEALTHY_THRESHOLD then Degraded
      else Unhealthy)"

definition updateConnectionHealth :: "nat \<Rightarrow> Hook \<Rightarrow> Hook" where
  "updateConnectionHealth missed h =
     (let health = healthOf missed in
      if connectionHealth (tstate h) \<noteq> health
      then h\<lparr>callbacks := callbacks h @ [OnHealthChange health],
             tstate := (tstate h)\<lparr>connectionHealth := health\<rparr>\<rparr>
      else h)"

text \<open>\<open>handlePong\<close>; \<open>now\<close> is what \<open>Date.now()\<close> returns.\<close>

definition handlePong :: "int \<Rightarrow> int \<Rightarrow> Hook \<Rightarrow> Hook" where
  "handlePong now timestamp h =
     (let h1 = (if pingTimeoutRef h then h\<lparr>pingTimeoutRef := False\<rparr> else h);
          latency = now - timestamp;
          h2 = h1\<lparr>missedPingsRef := 0\<rparr>;
          h3 = h2\<lparr>tstate := (tstate h2)\<lparr>lastPingLatency := Some latency,
                                         connectionHealth := Healthy\<rparr>\<rparr>
      in updateConnectionHealth 0 h3)"

text \<open>The callback that \<open>sendPing\<close> passes to \<open>setTimeout\<close>: a ping timed out.\<close>

definition pingTimeout :: "Hook \<Rightarrow> Hook" where
  "pingTimeout h =
     (let h1 = h\<lparr>missedPingsRef := missedPingsRef h + 1\<rparr>;
          h2 = updateConnectionHealth (missedPingsRef h1) h1
      in if UNHEALTHY_THRESHOLD \<le> missedPingsRef h2
         then h2\<lparr>tstate := (tstate h2)
                    \<lparr>error := Some ''Connection appears dead (no heartbeat response)''\<rparr>,
                  callbacks := callbacks h2
                    @ [OnError ''Connection appears dead (no heartbeat response)'']\<rparr>
         else h2)"

subsection \<open>Opening\<close>

definition onOpen :: "Hook \<Rightarrow> Hook" where
  "onOpen h =
     h\<lparr>configSentRef := False,
       missedPingsRef := 0,
       bytesSentRef := 0,
       audioQueueRef := [],
       tstate := (tstate h)
         \<lparr>interimText := [], finalizedSegments := [], fullTranscript := [],
          sessionId := None, error := None, bytesSent := 0, queuedChunks := 0,
          lastPingLatency := None, connectionHealth := Healthy,
          latestModeration := None, moderationResults := []\<rparr>\<rparr>"

subsection \<open>The audio queue\<close>

text \<open>
  The loop that sends the queued chunks, written twice in the source (in \<open>processQueue\<close>
  and inline in \<open>sendAudio\<close>): it takes the oldest chunk off the queue and sends it;
  when the send throws it puts the chunk back at the front and stops. The arguments
  are the queue, the socket and \<open>bytesSentRef\<close>.
\<close>

fun drainQueue ::
  "ArrayBuffer list \<Rightarrow> WebSocket \<Rightarrow> nat \<Rightarrow> ArrayBuffer list \<times> WebSocket \<times> nat" where
  "drainQueue [] ws sent = ([], ws, sent)"
| "drainQueue (chunk # rest) ws sent =
     (case ws_send chunk ws of
        (True, ws') \<Rightarrow> drainQueue rest ws' (sent + length chunk)
      | (False, ws') \<Rightarrow> (chunk # rest, ws', sent))"


text \<open>\<open>push\<close> followed by the overflow check, as both queueing branches write it.\<close>

definition pushBounded :: "nat \<Rightarrow> ArrayBuffer \<Rightarrow> ArrayBuffer list \<Rightarrow> ArrayBuffer list" where
  "pushBounded limit chunk queue =
     (let pushed = queue @ [chunk]
      in if limit < length pushed then tl pushed else pushed)"

definition sendAudio :: "UseTranscriptionOptions \<Rightarrow> ArrayBuffer \<Rightarrow> Hook \<Rightarrow> bool \<times> Hook" where
  "sendAudio opts audioBuffer h =
     (if readyState h \<noteq> OPEN then
        (if enableQueue opts
         then (True, h\<lparr>audioQueueRef :=
                          pushBounded (maxQueueSize opts) audioBuffer (audioQueueRef h)\<rparr>)
         else (False, h))
      else case webSocket h of
        None \<Rightarrow> (False, h)
      | Some ws \<Rightarrow>
          if ws_readyState ws \<noteq> OPEN then (False, h)
          else
            (case (if \<not> isProcessingQueueRef h \<and> audioQueueRef h \<noteq> []
                   then drainQueue (audioQueueRef h) ws (bytesSentRef h)
                   else (audioQueueRef h, ws, bytesSentRef h)) of
               (queue, ws1, sent) \<Rightarrow>
                 (case ws_send audioBuffer ws1 of
                    (True, ws2) \<Rightarrow>
                      (True, h\<lparr>audioQueueRef := queue, webSocket := Some ws2,
                               bytesSentRef := sent + length audioBuffer\<rparr>)
                  | (False, ws2) \<Rightarrow>
                      if enableQueue opts
                      then
                        (let queue' = pushBounded (maxQueueSize opts) audioBuffer queue
                         in (False, h\<lparr>audioQueueRef := queue', webSocket := Some ws2,
                                       bytesSentRef := sent,
                                       tstate := (tstate h)\<lparr>queuedChunks := length queue'\<rparr>\<rparr>))
                      else (False, h\<lparr>audioQueueRef := queue, webSocket := Some ws2,
                                     bytesSentRef := sent\<rparr>))))"

text \<open>Calling \<open>sendAudio\<close> once per chunk, in order; the results of the calls are kept.\<close>

fun sendAudioAll ::
  "UseTranscriptionOptions \<Rightarrow> ArrayBuffer list \<Rightarrow> Hook \<Rightarrow> bool list \<times> Hook" where
  "sendAudioAll opts [] h = ([], h)"
| "sendAudioAll opts (chunk # chunks) h =
     (case sendAudio opts chunk h of
        (ok, h') \<Rightarrow> (case sendAudioAll opts chunks h' of (oks, h'') \<Rightarrow> (ok # oks, h'')))"



subsection \<open>Incoming messages\<close>

text \<open>
  \<open>String.prototype.trim\<close> removes white space and line terminators from both ends;
  among 8-bit characters these are U+0009 to U+000D, U+0020 and U+00A0.
\<close>

definition js_whitespace :: "char \<Rightarrow> bool" where
  "js_whitespace c = (of_char c \<in> {9, 10, 11, 12, 13, 32, 160 :: nat})"

definition trim :: "string \<Rightarrow> string" where
  "trim s = rev (dropWhile js_whitespace (rev (dropWhile js_whitespace s)))"

text \<open>\<open>Array.prototype.join\<close> on strings.\<close>

fun join :: "string \<Rightarrow> string list \<Rightarrow> string" where
  "join sep [] = []"
| "join sep [x] = x"
| "join sep (x # y # ys) = x @ sep @ join sep (y # ys)"

text \<open>
  The parsed messages of the server that the hook handles: a pong, a moderation result
  (whose keywords may be absent), a transcription response with its \<open>text\<close> and
  \<open>is_final\<close>, and a payload that \<open>JSON.parse\<close> rejects.
\<close>

datatype ServerMessage =
    PongMsg int
  | ModerationMsg ModerationResult "string list option"
  | TranscriptionMsg string bool
  | Unparsable

text \<open>The state updater of the transcription branch.\<close>

definition applyTranscription :: "string \<Rightarrow> bool \<Rightarrow> TranscriptionState \<Rightarrow> TranscriptionState"
where
  "applyTranscription text is_final prev =
     (let (newSegments, newInterim) =
            (if is_final
             then ((if trim text \<noteq> []
                    then finalizedSegments prev @ [trim text]
                    else finalizedSegments prev), [])
             else (finalizedSegments prev, text));
          fullTranscript' = join '' '' (filter (\<lambda>s. s \<noteq> []) (newSegments @ [newInterim]))
      in prev\<lparr>interimText := newInterim, finalizedSegments := newSegments,
              fullTranscript := fullTranscript'\<rparr>)"

text \<open>
  A message arrives: the \<open>filter\<close> option consumes a pong, the effect on \<open>lastMessage\<close>
  handles the rest.
\<close>

fun onMessage :: "int \<Rightarrow> ServerMessage \<Rightarrow> Hook \<Rightarrow> Hook" where
  "onMessage now (PongMsg timestamp) h = handlePong now timestamp h"
| "onMessage now (ModerationMsg dat keywords) h =
     (let moderationResult =
            dat\<lparr>detected_keywords := (case keywords of None \<Rightarrow> [] | Some ks \<Rightarrow> ks)\<rparr>
      in h\<lparr>tstate := (tstate h)
              \<lparr>latestModeration := Some moderationResult,
               moderationResults := moderationResults (tstate h) @ [moderationResult]\<rparr>,
            callbacks := callbacks h @ [OnModeration moderationResult]\<rparr>)"
| "onMessage now (TranscriptionMsg text is_final) h =
     h\<lparr>tstate := applyTranscription text is_final (tstate h),
       callbacks := callbacks h @ [OnTranscription text is_final]\<rparr>"
| "onMessage now Unparsable h = h"

subsection \<open>Two situations of the hook\<close>

text \<open>After \<open>connect\<close>, while the socket is still connecting.\<close>

definition connectingHook :: Hook where
  "connectingHook =
     initialHook\<lparr>readyState := CONNECTING,
       webSocket := Some \<lparr> ws_readyState = CONNECTING, wire = [], throws = [] \<rparr>\<rparr>"


section \<open>Properties of the capture engine\<close>

subsection \<open>Clamping and quantisation\<close>












lemma flush_bytesWritten: "bytesWritten (flush p) = 0"
  by (simp add: flush_def postMessage_def)

lemma stop_port:
  "port (stop p) =
     port p @
     (if 0 < bytesWritten p
      then [AudioMsg (map (\<lambda>i. ToInt16 (scaleSample (js_index (buffer p) (int i))))
                          [0 ..< bytesWritten p])]
      else []) @ [StateMsg Stopped]"
  by (simp add: stop_def notifyState_def postMessage_def flush_def)

lemma stop_fields:
  "bytesWritten (stop p) = 0" "state (stop p) = Stopped" "\<not> isRunning (stop p)"
  by (simp_all add: stop_def notifyState_def postMessage_def flush_def)




subsection \<open>Stopping\<close>

lemma stop_again:
  "port ((stop ^^ Suc k) p) = port (stop p) @ replicate k (StateMsg Stopped) \<and>
   bytesWritten ((stop ^^ Suc k) p) = 0 \<and> state ((stop ^^ Suc k) p) = Stopped \<and>
   \<not> isRunning ((stop ^^ Suc k) p)"
proof (induction k)
  case 0
  show ?case by (simp add: stop_fields)
next
  case (Suc k)
  then show ?case
    by (simp add: stop_port stop_fields replicate_append_same)
qed

text \<open>
  Claim C8. \<open>stop\<close> flushes whatever the accumulator holds, also fewer samples than the
  chunk size, then leaves the processor stopped and posts the state notification.
  Every further \<open>stop\<close> posts the state notification again and nothing else: after
  \<open>k + 1\<close> calls in succession the port has received the one audio chunk of the
  remainder (none when the accumulator was empty) followed by \<open>k + 1\<close> notifications.
\<close>

theorem C8_stop_flushes_once:
  "port ((stop ^^ Suc k) p) =
     port p @
     (if 0 < bytesWritten p
      then [AudioMsg (map (\<lambda>i. ToInt16 (scaleSample (js_index (buffer p) (int i))))
                          [0 ..< bytesWritten p])]
      else []) @
     replicate (Suc k) (StateMsg Stopped) \<and>
   port (stop ((stop ^^ Suc k) p)) = port ((stop ^^ Suc k) p) @ [StateMsg Stopped] \<and>
   state ((stop ^^ Suc k) p) = Stopped \<and>
   \<not> isRunning ((stop ^^ Suc k) p) \<and>
   bytesWritten ((stop ^^ Suc k) p) = 0"
proof -
  have "port (stop ((stop ^^ Suc k) p)) = port ((stop ^^ Suc k) p) @ [StateMsg Stopped]"
    using stop_again[of k p] by (simp only: stop_port[of "(stop ^^ Suc k) p"]) simp
  then show ?thesis
    using stop_again[of k p]
    by (simp add: stop_port[of p] replicate_append_same del: funpow.simps)
qed

theorem C8_stop_flushes_once_witness:
  "port (stop (stop (stop (addSample (Fin (- 1)) (constructor 48000 (Some 4) None)))))
     = [StateMsg Running, AudioMsg [- 32768], StateMsg Stopped, StateMsg Stopped,
        StateMsg Stopped]"
proof -
  let ?q = "addSample (Fin (- 1)) (constructor 48000 (Some 4) None)"
  have cl: "clampSample (Fin (- 1)) = Fin (- 1)"
    by (simp add: clampSample_def Math_min_def Math_max_def)
  have q: "bytesWritten ?q = 1" "port ?q = [StateMsg Running]" "buffer ?q ! 0 = Fin (- 1)"
    "length (buffer ?q) = 4"
    by (simp_all add: addSample_def cl constructor_def notifyState_def postMessage_def Let_def)
  have "ToInt16 (scaleSample (Fin (- 1))) = - 32768"
    by (simp add: scaleSample_def js_trunc_def)
  then show ?thesis
    using C8_stop_flushes_once[of 2 ?q] q
    by (simp add: js_index_def numeral_2_eq_2 replicate_append_same)
qed

subsection \<open>Resampling\<close>

lemma addSample_resample [simp]:
  "resampleRatio (addSample x p) = resampleRatio p"
  "resamplePosition (addSample x p) = resamplePosition p"
  by (simp_all add: addSample_def Let_def flush_def sendAudioLevel_def postMessage_def)

lemma samplesOut_addSample [simp]: "samplesOut (addSample x p) = samplesOut p + 1"
  by (simp add: addSample_def Let_def flush_def sendAudioLevel_def postMessage_def
      samplesOut_def)

lemma samplesOut_resamplePosition_update [simp]:
  "samplesOut (p\<lparr>resamplePosition := v\<rparr>) = samplesOut p"
  by (simp add: samplesOut_def)















section \<open>Properties of the transport client\<close>

subsection \<open>Connection health\<close>

lemma healthOf_cases:
  "healthOf 0 = Healthy" "healthOf 1 = Degraded" "healthOf 2 = Degraded"
  "3 \<le> m \<Longrightarrow> healthOf m = Unhealthy"
  by (simp_all add: healthOf_def UNHEALTHY_THRESHOLD_def)

lemma updateConnectionHealth_health:
  "connectionHealth (tstate (updateConnectionHealth m h)) = healthOf m"
  by (simp add: updateConnectionHealth_def Let_def)

lemma updateConnectionHealth_missed:
  "missedPingsRef (updateConnectionHealth m h) = missedPingsRef h"
  by (simp add: updateConnectionHealth_def Let_def)

lemma updateConnectionHealth_latency:
  "lastPingLatency (tstate (updateConnectionHealth m h)) = lastPingLatency (tstate h)"
  by (simp add: updateConnectionHealth_def Let_def)

lemma pingTimeout_missed: "missedPingsRef (pingTimeout h) = missedPingsRef h + 1"
  by (simp add: pingTimeout_def Let_def updateConnectionHealth_missed)

lemma pingTimeout_health:
  "connectionHealth (tstate (pingTimeout h)) = healthOf (missedPingsRef h + 1)"
  by (simp add: pingTimeout_def Let_def updateConnectionHealth_health)

lemma pingTimeout_iterated:
  "missedPingsRef ((pingTimeout ^^ n) h) = missedPingsRef h + n \<and>
   connectionHealth (tstate ((pingTimeout ^^ Suc n) h)) = healthOf (missedPingsRef h + Suc n)"
  by (induction n) (simp_all add: pingTimeout_missed pingTimeout_health)

lemma handlePong_fields:
  "missedPingsRef (handlePong now ts h) = 0"
  "lastPingLatency (tstate (handlePong now ts h)) = Some (now - ts)"
  "connectionHealth (tstate (handlePong now ts h)) = Healthy"
  by (simp_all add: handlePong_def Let_def updateConnectionHealth_missed
      updateConnectionHealth_latency updateConnectionHealth_health healthOf_cases)

text \<open>
  Claim C4. The health that \<open>updateConnectionHealth\<close> stores is a function of the
  number of missed pings alone: healthy for 0, degraded for 1 and 2, unhealthy from 3
  on. Every ping timeout adds one to the counter and stores the health of the new
  count, so after \<open>n + 1\<close> timeouts the health is that of the old count plus \<open>n + 1\<close>.
  A pong, in any state, sets the counter to zero, records the time elapsed since the
  timestamp of the ping as latency and leaves the health healthy.
\<close>

theorem C4_connection_health:
  "healthOf 0 = Healthy \<and> healthOf 1 = Degraded \<and> healthOf 2 = Degraded \<and>
   (3 \<le> m \<longrightarrow> healthOf m = Unhealthy) \<and>
   connectionHealth (tstate (updateConnectionHealth m h)) = healthOf m \<and>
   missedPingsRef (pingTimeout h) = missedPingsRef h + 1 \<and>
   connectionHealth (tstate (pingTimeout h)) = healthOf (missedPingsRef h + 1) \<and>
   connectionHealth (tstate ((pingTimeout ^^ Suc n) h)) = healthOf (missedPingsRef h + Suc n) \<and>
   missedPingsRef (handlePong now ts h) = 0 \<and>
   lastPingLatency (tstate (handlePong now ts h)) = Some (now - ts) \<and>
   connectionHealth (tstate (handlePong now ts h)) = Healthy"
  using healthOf_cases(4)[of m] pingTimeout_iterated[of n h]
  by (simp only: healthOf_cases(1-3) updateConnectionHealth_health pingTimeout_missed
      pingTimeout_health handlePong_fields) simp

theorem C4_connection_health_witness:
  "connectionHealth (tstate (pingTimeout (pingTimeout (pingTimeout initialHook)))) = Unhealthy \<and>
   connectionHealth (tstate (pingTimeout initialHook)) = Degraded \<and>
   connectionHealth
     (tstate (handlePong 1250 1000 (pingTimeout (pingTimeout (pingTimeout initialHook)))))
     = Healthy \<and>
   lastPingLatency
     (tstate (handlePong 1250 1000 (pingTimeout (pingTimeout (pingTimeout initialHook)))))
     = Some 250"
proof -
  have m: "missedPingsRef initialHook = 0"
    by (simp add: initialHook_def)
  have "healthOf 3 = Unhealthy"
    using C4_connection_health[of 3] by simp
  then show ?thesis
    using C4_connection_health[where m = 3 and h = initialHook and n = 2]
      C4_connection_health[where m = 3 and h = initialHook and n = 0]
      C4_connection_health[where m = 3 and now = 1250 and ts = 1000
        and h = "pingTimeout (pingTimeout (pingTimeout initialHook))"]
    by (simp add: m numeral_2_eq_2 numeral_3_eq_3)
qed

subsection \<open>Opening the connection\<close>





subsection \<open>The audio queue\<close>

lemma length_pushBounded:
  "length queue \<le> limit \<Longrightarrow> length (pushBounded limit chunk queue) \<le> limit"
  by (auto simp: pushBounded_def Let_def)

lemma pushBounded_drop:
  "length queue \<le> limit \<Longrightarrow>
   pushBounded limit chunk queue = drop (length (queue @ [chunk]) - limit) (queue @ [chunk])"
proof -
  assume le: "length queue \<le> limit"
  define xs where "xs = queue @ [chunk]"
  have len: "length xs = Suc (length queue)" by (simp add: xs_def)
  show ?thesis
  proof (cases "limit < length xs")
    case True
    with le len have "length xs - limit = Suc 0" by simp
    then have "drop (length xs - limit) xs = tl xs" by (simp add: drop_Suc)
    with True show ?thesis
      unfolding pushBounded_def Let_def xs_def by simp
  next
    case False
    then show ?thesis
      unfolding pushBounded_def Let_def xs_def by simp
  qed
qed

lemma drop_excess:
  "drop (length (drop (length xs - C) xs @ cs) - C) (drop (length xs - C) xs @ cs)
     = drop (length (xs @ cs) - C) (xs @ cs)"
proof -
  have "drop (length xs - C) xs @ cs = drop (length xs - C) (xs @ cs)"
    by simp
  moreover have "length (drop (length xs - C) (xs @ cs)) - C + (length xs - C)
      = length (xs @ cs) - C"
    by simp
  ultimately show ?thesis
    by (simp only: drop_drop)
qed

lemma drainQueue_split:
  "drainQueue queue ws sent = (queue', ws', sent') \<Longrightarrow>
   \<exists>delivered. queue = delivered @ queue' \<and> wire ws' = wire ws @ delivered \<and>
     sent' = sent + sum_list (map length delivered) \<and>
     ws_readyState ws' = ws_readyState ws \<and>
     (queue' \<noteq> [] \<longrightarrow>
        throws ws = replicate (length delivered) False @ True # throws ws')"
proof (induction queue arbitrary: ws sent)
  case Nil
  then show ?case by simp
next
  case (Cons chunk rest)
  show ?case
  proof (cases "throws ws \<noteq> [] \<and> hd (throws ws)")
    case True
    then have "ws_send chunk ws = (False, ws\<lparr>throws := tl (throws ws)\<rparr>)"
      by (simp add: ws_send_def)
    with Cons.prems have "queue' = chunk # rest" "ws' = ws\<lparr>throws := tl (throws ws)\<rparr>"
      "sent' = sent"
      by simp_all
    with True show ?thesis
      by (intro exI[of _ "[]"]) (cases "throws ws"; simp)
  next
    case False
    let ?ws1 = "ws\<lparr>wire := wire ws @ [chunk], throws := tl (throws ws)\<rparr>"
    from False have s: "ws_send chunk ws = (True, ?ws1)"
      by (auto simp: ws_send_def)
    with Cons.prems have "drainQueue rest ?ws1 (sent + length chunk) = (queue', ws', sent')"
      by simp
    from Cons.IH[OF this] obtain delivered where d: "rest = delivered @ queue'"
      "wire ws' = wire ?ws1 @ delivered"
      "sent' = sent + length chunk + sum_list (map length delivered)"
      "ws_readyState ws' = ws_readyState ?ws1"
      "queue' \<noteq> [] \<longrightarrow> throws ?ws1 = replicate (length delivered) False @ True # throws ws'"
      by blast
    have "queue' \<noteq> [] \<longrightarrow>
        throws ws = replicate (length (chunk # delivered)) False @ True # throws ws'"
      using d(5) False by (cases "throws ws") auto
    with d(1-4) show ?thesis
      by (intro exI[of _ "chunk # delivered"]) simp
  qed
qed


lemma drainQueue_length:
  "drainQueue queue ws sent = (queue', ws', sent') \<Longrightarrow> length queue' \<le> length queue"
  using drainQueue_split by fastforce

lemma sendAudio_queue_bound:
  assumes le: "length (audioQueueRef h) \<le> maxQueueSize opts"
  shows "length (audioQueueRef (snd (sendAudio opts chunk h))) \<le> maxQueueSize opts"
proof (cases "readyState h = OPEN \<and> (\<exists>ws. webSocket h = Some ws \<and> ws_readyState ws = OPEN)")
  case False
  then show ?thesis
    using le by (auto simp: sendAudio_def length_pushBounded split: option.splits)
next
  case True
  then obtain ws where ws: "readyState h = OPEN" "webSocket h = Some ws" "ws_readyState ws = OPEN"
    by blast
  obtain queue ws1 sent where d:
    "(if \<not> isProcessingQueueRef h \<and> audioQueueRef h \<noteq> []
      then drainQueue (audioQueueRef h) ws (bytesSentRef h)
      else (audioQueueRef h, ws, bytesSentRef h)) = (queue, ws1, sent)"
    using prod_cases3 by blast
  have "length queue \<le> length (audioQueueRef h)"
    using d drainQueue_length by (auto split: if_splits)
  with le have q: "length queue \<le> maxQueueSize opts" by simp
  obtain ok ws2 where s: "ws_send chunk ws1 = (ok, ws2)"
    by (cases "ws_send chunk ws1") auto
  show ?thesis
    using q length_pushBounded[OF q, of chunk]
    by (cases ok) (simp_all add: sendAudio_def ws d s Let_def)
qed

lemma sendAudio_closed:
  "readyState h \<noteq> OPEN \<Longrightarrow> enableQueue opts \<Longrightarrow>
   sendAudio opts chunk h =
     (True, h\<lparr>audioQueueRef := pushBounded (maxQueueSize opts) chunk (audioQueueRef h)\<rparr>)"
  by (simp add: sendAudio_def)

lemma sendAudioAll_closed:
  "readyState h \<noteq> OPEN \<Longrightarrow> enableQueue opts \<Longrightarrow>
   length (audioQueueRef h) \<le> maxQueueSize opts \<Longrightarrow>
   sendAudioAll opts chunks h =
     (replicate (length chunks) True,
      h\<lparr>audioQueueRef :=
           drop (length (audioQueueRef h @ chunks) - maxQueueSize opts)
             (audioQueueRef h @ chunks)\<rparr>)"
proof (induction chunks arbitrary: h)
  case Nil
  then show ?case by simp
next
  case (Cons chunk chunks)
  let ?h1 = "h\<lparr>audioQueueRef := pushBounded (maxQueueSize opts) chunk (audioQueueRef h)\<rparr>"
  let ?C = "maxQueueSize opts"
  let ?q = "audioQueueRef h"
  have 1: "readyState ?h1 \<noteq> OPEN" using Cons.prems by simp
  have 2: "length (audioQueueRef ?h1) \<le> ?C"
    using Cons.prems by (simp add: length_pushBounded)
  have q1: "audioQueueRef ?h1 = drop (length (?q @ [chunk]) - ?C) (?q @ [chunk])"
    using Cons.prems by (simp add: pushBounded_drop)
  have "drop (length (audioQueueRef ?h1 @ chunks) - ?C) (audioQueueRef ?h1 @ chunks)
      = drop (length (?q @ chunk # chunks) - ?C) (?q @ chunk # chunks)"
    unfolding q1 using drop_excess[of "?q @ [chunk]" ?C chunks] by simp
  then show ?case
    using Cons.IH[OF 1 Cons.prems(2) 2] Cons.prems by (simp add: sendAudio_closed)
qed

text \<open>
  Claim C6. A call of \<open>sendAudio\<close>, in any state and whatever the socket does, leaves
  the queue within the capacity when it was within it before, and the queue starts
  empty; the default capacity is 50. While the connection is not open and queueing is
  enabled, every call returns true and the queue holds the most recent chunks of those
  queued and pushed, in order, as many as the capacity allows: after pushing at least
  \<open>C\<close> chunks, exactly the last \<open>C\<close> of them.
\<close>

theorem C6_queue_bounded:
  "(length (audioQueueRef h) \<le> maxQueueSize opts \<longrightarrow>
      length (audioQueueRef (snd (sendAudio opts chunk h))) \<le> maxQueueSize opts) \<and>
   (readyState h \<noteq> OPEN \<and> enableQueue opts \<and>
    length (audioQueueRef h) \<le> maxQueueSize opts \<longrightarrow>
      fst (sendAudioAll opts chunks h) = replicate (length chunks) True \<and>
      audioQueueRef (snd (sendAudioAll opts chunks h)) =
        drop (length (audioQueueRef h @ chunks) - maxQueueSize opts)
          (audioQueueRef h @ chunks) \<and>
      length (audioQueueRef (snd (sendAudioAll opts chunks h))) \<le> maxQueueSize opts \<and>
      (maxQueueSize opts \<le> length chunks \<longrightarrow>
         audioQueueRef (snd (sendAudioAll opts chunks h)) =
           drop (length chunks - maxQueueSize opts) chunks \<and>
         length (audioQueueRef (snd (sendAudioAll opts chunks h))) = maxQueueSize opts)) \<and>
   maxQueueSize defaultOptions = 50 \<and>
   audioQueueRef initialHook = []"
proof -
  have a: "length (audioQueueRef h) \<le> maxQueueSize opts \<longrightarrow>
      length (audioQueueRef (snd (sendAudio opts chunk h))) \<le> maxQueueSize opts"
    using sendAudio_queue_bound by blast
  have b: "fst (sendAudioAll opts chunks h) = replicate (length chunks) True \<and>
      audioQueueRef (snd (sendAudioAll opts chunks h)) =
        drop (length (audioQueueRef h @ chunks) - maxQueueSize opts)
          (audioQueueRef h @ chunks) \<and>
      length (audioQueueRef (snd (sendAudioAll opts chunks h))) \<le> maxQueueSize opts \<and>
      (maxQueueSize opts \<le> length chunks \<longrightarrow>
         audioQueueRef (snd (sendAudioAll opts chunks h)) =
           drop (length chunks - maxQueueSize opts) chunks \<and>
         length (audioQueueRef (snd (sendAudioAll opts chunks h))) = maxQueueSize opts)"
    if "readyState h \<noteq> OPEN" "enableQueue opts" "length (audioQueueRef h) \<le> maxQueueSize opts"
    using sendAudioAll_closed[OF that, of chunks] by auto
  have c: "maxQueueSize defaultOptions = 50" "audioQueueRef initialHook = []"
    by (simp_all add: defaultOptions_def DEFAULT_MAX_QUEUE_SIZE_def initialHook_def)
  from a b c show ?thesis by blast
qed

theorem C6_queue_bounded_witness:
  "sendAudioAll \<lparr> maxQueueSize = 2, enableQueue = True \<rparr> [[1], [2], [3]] connectingHook
     = ([True, True, True], connectingHook\<lparr>audioQueueRef := [[2], [3]]\<rparr>)"
proof -
  let ?o = "\<lparr> maxQueueSize = 2, enableQueue = True \<rparr>"
  have h: "readyState connectingHook \<noteq> OPEN" "audioQueueRef connectingHook = []"
    by (simp_all add: connectingHook_def initialHook_def)
  have "fst (sendAudioAll ?o [[1], [2], [3]] connectingHook) = [True, True, True]"
    "audioQueueRef (snd (sendAudioAll ?o [[1], [2], [3]] connectingHook)) = [[2], [3]]"
    using C6_queue_bounded[of connectingHook ?o _ "[[1], [2], [3]]"] h
    by (simp_all add: numeral_3_eq_3)
  moreover have "snd (sendAudioAll ?o [[1], [2], [3]] connectingHook)
      = connectingHook\<lparr>audioQueueRef :=
          audioQueueRef (snd (sendAudioAll ?o [[1], [2], [3]] connectingHook))\<rparr>"
    by (simp add: sendAudio_def h)
  ultimately show ?thesis
    by (metis prod.collapse)
qed








subsection \<open>Transcription messages\<close>

lemma rev_dropWhile_takeWhile:
  "rev (dropWhile P (rev xs)) @ rev (takeWhile P (rev xs)) = xs"
proof -
  have "rev (dropWhile P (rev xs)) @ rev (takeWhile P (rev xs))
      = rev (takeWhile P (rev xs) @ dropWhile P (rev xs))"
    by (simp only: rev_append)
  also have "\<dots> = rev (rev xs)"
    by (simp only: takeWhile_dropWhile_id)
  finally show ?thesis by simp
qed

lemma trim_suffix:
  "dropWhile js_whitespace s
     = trim s @ rev (takeWhile js_whitespace (rev (dropWhile js_whitespace s)))"
  unfolding trim_def by (simp only: rev_dropWhile_takeWhile)

lemma trim_decompose:
  "\<exists>pre post. s = pre @ trim s @ post \<and> list_all js_whitespace pre \<and>
     list_all js_whitespace post"
proof -
  let ?d = "dropWhile js_whitespace s"
  let ?post = "rev (takeWhile js_whitespace (rev ?d))"
  have "s = takeWhile js_whitespace s @ ?d" by simp
  also have "\<dots> = takeWhile js_whitespace s @ trim s @ ?post"
    using trim_suffix[of s] by simp
  finally have "s = takeWhile js_whitespace s @ trim s @ ?post" .
  moreover have "list_all js_whitespace (takeWhile js_whitespace s)"
    by (simp add: list_all_iff) (meson set_takeWhileD)
  moreover have "list_all js_whitespace ?post"
    by (simp add: list_all_iff) (meson set_takeWhileD)
  ultimately show ?thesis by blast
qed

lemma trim_empty_iff: "trim s = [] \<longleftrightarrow> list_all js_whitespace s"
proof
  assume e: "trim s = []"
  obtain pre post where "s = pre @ trim s @ post" "list_all js_whitespace pre"
    "list_all js_whitespace post"
    using trim_decompose by blast
  with e show "list_all js_whitespace s"
    by (metis append_Nil list_all_append)
next
  assume "list_all js_whitespace s"
  then have "dropWhile js_whitespace s = []"
    by (metis dropWhile_eq_Nil_conv list_all_iff)
  then show "trim s = []"
    unfolding trim_def by (simp only: rev.simps dropWhile.simps)
qed

lemma trim_ends:
  assumes "trim s \<noteq> []"
  shows "\<not> js_whitespace (hd (trim s))" and "\<not> js_whitespace (last (trim s))"
proof -
  let ?d = "dropWhile js_whitespace s"
  let ?e = "dropWhile js_whitespace (rev ?d)"
  have e: "?e \<noteq> []" using assms by (simp add: trim_def)
  then have "\<not> js_whitespace (hd ?e)" by (rule hd_dropWhile)
  moreover have "last (trim s) = hd ?e"
    using e by (simp add: trim_def last_rev)
  ultimately show "\<not> js_whitespace (last (trim s))" by simp
  have "?d \<noteq> []" using assms trim_suffix[of s] by (metis append_is_Nil_conv)
  then have "\<not> js_whitespace (hd ?d)" by (rule hd_dropWhile)
  moreover have "hd ?d = hd (trim s)"
    using assms by (subst trim_suffix) simp
  ultimately show "\<not> js_whitespace (hd (trim s))" by simp
qed

lemma applyTranscription_fields:
  "interimText (applyTranscription text is_final prev) = (if is_final then [] else text)"
  "finalizedSegments (applyTranscription text is_final prev) =
     (if is_final \<and> trim text \<noteq> [] then finalizedSegments prev @ [trim text]
      else finalizedSegments prev)"
  "fullTranscript (applyTranscription text is_final prev) =
     join '' '' (filter (\<lambda>s. s \<noteq> [])
       (finalizedSegments (applyTranscription text is_final prev)
          @ [interimText (applyTranscription text is_final prev)]))"
  by (simp_all add: applyTranscription_def Let_def)

lemma trim_Hello: "trim ''Hello'' = ''Hello''" "trim '' Hello '' = ''Hello''" "trim [] = []"
  by (simp_all add: trim_def js_whitespace_def)

lemma onMessage_transcription:
  "tstate (onMessage now (TranscriptionMsg text is_final) h)
     = applyTranscription text is_final (tstate h)"
  by simp

lemma join_empty: "join sep (filter (\<lambda>s. s \<noteq> []) [[]]) = []"
  by simp

text \<open>
  Claim C7, as amended. For every transcription message, text that is not final
  replaces the interim text and leaves the finalized segments as they are; final text
  clears the interim text and, trimmed, is appended to the finalized segments unless
  the trimmed text is empty. The full transcript is the non-empty entries of the
  finalized segments followed by the interim text, joined by single spaces; this also
  holds initially and after the connection opens. From a state without finalized
  segments, \<open>Hel\<close> (not final) followed by \<open>Hello\<close> (final) leaves the interim text
  empty, \<open>Hello\<close> as the only segment and \<open>Hello\<close> as the full transcript.
\<close>

theorem C7_transcription_messages:
  "interimText (tstate (onMessage now (TranscriptionMsg text False) h)) = text \<and>
   finalizedSegments (tstate (onMessage now (TranscriptionMsg text False) h))
     = finalizedSegments (tstate h) \<and>
   interimText (tstate (onMessage now (TranscriptionMsg text True) h)) = [] \<and>
   finalizedSegments (tstate (onMessage now (TranscriptionMsg text True) h))
     = (if trim text = [] then finalizedSegments (tstate h)
        else finalizedSegments (tstate h) @ [trim text]) \<and>
   fullTranscript (tstate (onMessage now (TranscriptionMsg text is_final) h))
     = join '' ''
         (filter (\<lambda>s. s \<noteq> [])
            (finalizedSegments (tstate (onMessage now (TranscriptionMsg text is_final) h))
               @ [interimText (tstate (onMessage now (TranscriptionMsg text is_final) h))])) \<and>
   fullTranscript initialState
     = join '' ''
         (filter (\<lambda>s. s \<noteq> []) (finalizedSegments initialState @ [interimText initialState])) \<and>
   fullTranscript (tstate (onOpen h))
     = join '' ''
         (filter (\<lambda>s. s \<noteq> [])
            (finalizedSegments (tstate (onOpen h)) @ [interimText (tstate (onOpen h))])) \<and>
   (finalizedSegments (tstate h) = [] \<longrightarrow>
      interimText (tstate (onMessage now (TranscriptionMsg ''Hel'' False) h)) = ''Hel'' \<and>
      finalizedSegments
        (tstate (onMessage now' (TranscriptionMsg ''Hello'' True)
                   (onMessage now (TranscriptionMsg ''Hel'' False) h))) = [''Hello''] \<and>
      interimText
        (tstate (onMessage now' (TranscriptionMsg ''Hello'' True)
                   (onMessage now (TranscriptionMsg ''Hel'' False) h))) = [] \<and>
      fullTranscript
        (tstate (onMessage now' (TranscriptionMsg ''Hello'' True)
                   (onMessage now (TranscriptionMsg ''Hel'' False) h))) = ''Hello'')"
proof -
  have "fullTranscript initialState
     = join '' ''
         (filter (\<lambda>s. s \<noteq> []) (finalizedSegments initialState @ [interimText initialState]))"
    by (simp add: initialState_def)
  moreover have "fullTranscript (tstate (onOpen h))
     = join '' ''
         (filter (\<lambda>s. s \<noteq> [])
            (finalizedSegments (tstate (onOpen h)) @ [interimText (tstate (onOpen h))]))"
    by (simp add: onOpen_def)
  ultimately show ?thesis
    unfolding onMessage_transcription
    by (simp add: applyTranscription_fields trim_Hello)
qed

theorem C7_transcription_messages_witness:
  "fullTranscript
     (tstate (onMessage 20 (TranscriptionMsg ''Hello'' True)
                (onMessage 10 (TranscriptionMsg ''Hel'' False) initialHook))) = ''Hello'' \<and>
   interimText (tstate (onMessage 10 (TranscriptionMsg ''Hel'' False) initialHook)) = ''Hel''"
proof -
  have "finalizedSegments (tstate initialHook) = []"
    by (simp add: initialHook_def initialState_def)
  with C7_transcription_messages[where h = initialHook and now = 10 and now' = 20]
  show ?thesis by blast
qed

text \<open>
  The claim as stated fails: final text with white space around it is not appended as
  it is, and empty final text is not appended.
\<close>

theorem C7_final_text_counterexample:
  "finalizedSegments (tstate (onMessage 0 (TranscriptionMsg '' Hello '' True) initialHook))
     \<noteq> finalizedSegments (tstate initialHook) @ ['' Hello ''] \<and>
   finalizedSegments (tstate (onMessage 0 (TranscriptionMsg [] True) initialHook))
     \<noteq> finalizedSegments (tstate initialHook) @ [[]]"
  by (simp add: applyTranscription_fields trim_Hello initialHook_def initialState_def)

text \<open>
  Claim C9. A final transcription message always clears the interim text. When its
  text is empty or white space only, the finalized segments are left as they are.
  Otherwise the trimmed text is appended: it is not empty, neither starts nor ends
  with white space, and the text is the trimmed text between two runs of white space.
\<close>

theorem C9_final_text_trimmed:
  "interimText (tstate (onMessage now (TranscriptionMsg text True) h)) = [] \<and>
   (list_all js_whitespace text \<longrightarrow>
      finalizedSegments (tstate (onMessage now (TranscriptionMsg text True) h))
        = finalizedSegments (tstate h)) \<and>
   (\<not> list_all js_whitespace text \<longrightarrow>
      finalizedSegments (tstate (onMessage now (TranscriptionMsg text True) h))
        = finalizedSegments (tstate h) @ [trim text] \<and>
      trim text \<noteq> [] \<and>
      \<not> js_whitespace (hd (trim text)) \<and> \<not> js_whitespace (last (trim text))) \<and>
   (\<exists>pre post. text = pre @ trim text @ post \<and>
      list_all js_whitespace pre \<and> list_all js_whitespace post)"
proof -
  have "trim text \<noteq> [] \<longrightarrow>
      \<not> js_whitespace (hd (trim text)) \<and> \<not> js_whitespace (last (trim text))"
    using trim_ends by blast
  then show ?thesis
    using trim_decompose[of "text"] trim_empty_iff[of "text"]
    unfolding onMessage_transcription
    by (simp add: applyTranscription_fields)
qed

theorem C9_final_text_trimmed_witness:
  "finalizedSegments (tstate (onMessage 0 (TranscriptionMsg '' hi '' True) initialHook))
     = [''hi''] \<and>
   finalizedSegments (tstate (onMessage 0 (TranscriptionMsg ''  '' True) initialHook)) = []"
proof -
  have t: "trim '' hi '' = ''hi''" "\<not> list_all js_whitespace '' hi ''"
    "list_all js_whitespace ''  ''"
    by (simp_all add: trim_def js_whitespace_def)
  have s: "finalizedSegments (tstate initialHook) = []"
    by (simp add: initialHook_def initialState_def)
  have "finalizedSegments (tstate (onMessage 0 (TranscriptionMsg '' hi '' True) initialHook))
      = finalizedSegments (tstate initialHook) @ [trim '' hi '']"
    using C9_final_text_trimmed[of 0 "'' hi ''" initialHook] t(2) by blast
  moreover
  have "finalizedSegments (tstate (onMessage 0 (TranscriptionMsg ''  '' True) initialHook))
      = finalizedSegments (tstate initialHook)"
    using C9_final_text_trimmed[of 0 "''  ''" initialHook] t(3) by blast
  ultimately show ?thesis
    by (simp only: s t(1) append_Nil)
qed


end
